theory Spec2Isabelle
  imports Main "HOL-Library.Char_ord" "HOL-Library.List_Lexorder" "HOL-Library.AList"
begin

section \<open>EchoTube: the duplicate-suppression cache and the delivery core\<close>

text \<open>
  A shallow embedding of \<^verbatim>\<open>cache.js\<close> (class VideoCache), of the cycle processor
  \<^verbatim>\<open>processVideos\<close> of \<^verbatim>\<open>index.js\<close> and of \<^verbatim>\<open>discord.js\<close> (classes DiscordWebhook and
  MultiDiscordWebhook). Mutation of \<^verbatim>\<open>this\<close> is explicit state passing, a thrown exception
  is a value, and every reading of the clock (\<^verbatim>\<open>Date.now()\<close>) is a parameter.
\<close>

subsection \<open>JavaScript values\<close>

text \<open>
  A JavaScript \<^verbatim>\<open>Date\<close>: its time value in milliseconds, or the invalid date (time value
  NaN). \<^verbatim>\<open>a > b\<close> on two dates compares the time values and is false as soon as one of
  them is NaN.
\<close>

datatype jsdate = TimeValue int | InvalidDate

fun date_gt :: "jsdate \<Rightarrow> jsdate \<Rightarrow> bool" where
  "date_gt (TimeValue a) (TimeValue b) = (b < a)"
| "date_gt _ _ = False"

text \<open>
  A value stored in \<^verbatim>\<open>latestVideoTimestamps\<close> or read from the state file. \<open>ISO t\<close> is
  the text \<^verbatim>\<open>d.toISOString()\<close> of a valid date, kept as the time value it denotes (the
  text has millisecond precision, and \<^verbatim>\<open>new Date(text)\<close> gives the time value back): it
  is what the code itself stores. \<open>Foreign b d\<close> is any other JSON value, which only a
  state file can bring in, kept as what the code observes of it: whether it is truthy,
  and the date that \<^verbatim>\<open>new Date(value)\<close> gives.
\<close>

datatype stored = ISO int | Foreign bool jsdate

fun truthy :: "stored \<Rightarrow> bool" where
  "truthy (ISO t) = True"
| "truthy (Foreign b d) = b"

text \<open>What the code throws.\<close>

datatype jserror =
    RangeError
  | HttpError nat string
  | JsError string string

fun error_name :: "jserror \<Rightarrow> string" where
  "error_name RangeError = ''RangeError''"
| "error_name (HttpError st txt) = ''Error''"
| "error_name (JsError nm msg) = nm"

text \<open>\<^verbatim>\<open>toISOString\<close> throws a RangeError on the invalid date.\<close>

fun toISOString :: "jsdate \<Rightarrow> jserror + stored" where
  "toISOString (TimeValue t) = Inr (ISO t)"
| "toISOString InvalidDate = Inl RangeError"

fun newDate :: "stored \<Rightarrow> jsdate" where
  "newDate (ISO t) = TimeValue t"
| "newDate (Foreign b d) = d"

text \<open>
  A JavaScript \<^verbatim>\<open>Set\<close> keeps its members in insertion order without repetition:
  \<^verbatim>\<open>add\<close> of a member changes nothing, \<^verbatim>\<open>add\<close> of a new value appends it.
  \<^verbatim>\<open>new Set(array)\<close> adds the elements of the array from left to right.
\<close>

definition Set_add :: "'a \<Rightarrow> 'a list \<Rightarrow> 'a list" where
  "Set_add x s = (if x \<in> set s then s else s @ [x])"

definition new_Set :: "'a list \<Rightarrow> 'a list" where
  "new_Set xs = fold Set_add xs []"

text \<open>
  \<^verbatim>\<open>array.slice(start)\<close>: a negative start counts from the end, and both ends are
  clamped to the array.
\<close>

definition slice :: "int \<Rightarrow> 'a list \<Rightarrow> 'a list" where
  "slice start xs =
     (let len = int (length xs);
          k = (if start < 0 then max (len + start) 0 else min start len)
      in drop (nat k) xs)"

subsection \<open>Items\<close>

text \<open>
  A video as \<^verbatim>\<open>fetchAllVideos\<close> hands it over. \<open>published\<close> is the date
  \<^verbatim>\<open>new Date(video.published)\<close> that the cache reads.
\<close>

record video =
  videoId :: string
  title :: string
  link :: string
  published :: jsdate
  channelName :: string
  thumbnail :: "string option"
  sourceType :: string
  sourceId :: string

definition sourceKey :: "video \<Rightarrow> string" where
  "sourceKey v = sourceType v @ '':'' @ sourceId v"

subsection \<open>VideoCache\<close>

record cache =
  cacheFile :: "string option"
  seenVideoIds :: "string list"
  latestVideoTimestamps :: "string \<rightharpoonup> stored"
  lastSaveTime :: int

text \<open>The constructor; \<open>now\<close> is \<^verbatim>\<open>Date.now()\<close>.\<close>

definition VideoCache :: "string option \<Rightarrow> int \<Rightarrow> cache" where
  "VideoCache file now =
     \<lparr>cacheFile = file, seenVideoIds = [], latestVideoTimestamps = Map.empty,
      lastSaveTime = now\<rparr>"

definition hasBeenSeen :: "cache \<Rightarrow> string \<Rightarrow> bool" where
  "hasBeenSeen c i = (i \<in> set (seenVideoIds c))"

definition markAsSeen :: "string \<Rightarrow> cache \<Rightarrow> cache" where
  "markAsSeen i c = c\<lparr>seenVideoIds := Set_add i (seenVideoIds c)\<rparr>"


text \<open>
  \<^verbatim>\<open>updateLatestTimestamp\<close>: the stored value is replaced when there is none, when it
  is falsy (\<^verbatim>\<open>!currentLatest\<close>), or when the new date is greater than the date of the
  stored one. The replacement calls \<^verbatim>\<open>toISOString\<close>, which throws on an invalid date
  before anything is stored.
\<close>

definition updateLatestTimestamp :: "string \<Rightarrow> jsdate \<Rightarrow> cache \<Rightarrow> jserror + cache" where
  "updateLatestTimestamp src timestamp c =
     (let newer = (case latestVideoTimestamps c src of
                     None \<Rightarrow> True
                   | Some currentLatest \<Rightarrow>
                       \<not> truthy currentLatest \<or> date_gt timestamp (newDate currentLatest))
      in if newer then
           (case toISOString timestamp of
              Inl e \<Rightarrow> Inl e
            | Inr s \<Rightarrow> Inr (c\<lparr>latestVideoTimestamps := (latestVideoTimestamps c)(src \<mapsto> s)\<rparr>))
         else Inr c)"

definition getLatestTimestamp :: "cache \<Rightarrow> string \<Rightarrow> stored option" where
  "getLatestTimestamp c src = latestVideoTimestamps c src"

definition filterNewVideos :: "cache \<Rightarrow> video list \<Rightarrow> video list" where
  "filterNewVideos c videos = filter (\<lambda>v. \<not> hasBeenSeen c (videoId v)) videos"

text \<open>
  The first loop of \<^verbatim>\<open>processVideos\<close>: the local \<^verbatim>\<open>Map\<close> sourceTimestamps, in
  insertion order. A source's first date is stored whatever it is; a later one replaces
  it only when it compares greater.
\<close>

fun sourceTimestamps :: "video list \<Rightarrow> (string \<times> jsdate) list \<Rightarrow> (string \<times> jsdate) list" where
  "sourceTimestamps [] m = m"
| "sourceTimestamps (v # vs) m =
     (let k = sourceKey v; videoDate = published v
      in sourceTimestamps vs
           (case map_of m k of
              None \<Rightarrow> AList.update k videoDate m
            | Some currentLatest \<Rightarrow>
                if date_gt videoDate currentLatest then AList.update k videoDate m else m))"

text \<open>
  The second loop: \<^verbatim>\<open>updateLatestTimestamp\<close> for every entry. An exception leaves the
  loop with the updates made so far; the second component is the exception.
\<close>

fun updateAll :: "(string \<times> jsdate) list \<Rightarrow> cache \<Rightarrow> cache \<times> jserror option" where
  "updateAll [] c = (c, None)"
| "updateAll ((k, ts) # rest) c =
     (case updateLatestTimestamp k ts c of
        Inl e \<Rightarrow> (c, Some e)
      | Inr c' \<Rightarrow> updateAll rest c')"

text \<open>Development mode: the first video of every source, in input order.\<close>

fun onePerSource :: "video list \<Rightarrow> string list \<Rightarrow> video list \<Rightarrow> video list" where
  "onePerSource [] seenSources devVideos = devVideos"
| "onePerSource (v # vs) seenSources devVideos =
     (if sourceKey v \<notin> set seenSources
      then onePerSource vs (Set_add (sourceKey v) seenSources) (devVideos @ [v])
      else onePerSource vs seenSources devVideos)"

text \<open>
  \<^verbatim>\<open>processVideos(videos, isInitialRun, mode)\<close> returns the cache after the call and
  either the exception thrown or the list returned.
\<close>

definition processVideos :: "video list \<Rightarrow> bool \<Rightarrow> string \<Rightarrow> cache \<Rightarrow> cache \<times> (jserror + video list)" where
  "processVideos videos isInitialRun mode c =
     (case updateAll (sourceTimestamps videos []) c of
        (c1, Some e) \<Rightarrow> (c1, Inl e)
      | (c1, None) \<Rightarrow>
          if isInitialRun \<and> mode = ''production'' then
            (fold (\<lambda>v. markAsSeen (videoId v)) videos c1, Inr [])
          else if mode = ''development'' then
            (let newVideos = filterNewVideos c1 videos;
                 devVideos = onePerSource newVideos [] []
             in (fold (\<lambda>v. markAsSeen (videoId v)) newVideos c1, Inr devVideos))
          else
            (let newVideos = filterNewVideos c1 videos
             in (fold (\<lambda>v. markAsSeen (videoId v)) newVideos c1, Inr newVideos)))"

definition isInitialRun :: "cache \<Rightarrow> bool" where
  "isInitialRun c = (length (seenVideoIds c) = 0)"

text \<open>
  \<^verbatim>\<open>cleanup(maxEntries)\<close>: nothing happens up to the bound; beyond it the identities are
  sorted and \<^verbatim>\<open>slice(-maxEntries)\<close> of the sorted array becomes the new set.
\<close>

definition cleanup :: "int \<Rightarrow> cache \<Rightarrow> cache" where
  "cleanup maxEntries c =
     (if int (length (seenVideoIds c)) \<le> maxEntries then c
      else (let videoIds = sort (seenVideoIds c);
                toKeep = slice (- maxEntries) videoIds
            in c\<lparr>seenVideoIds := new_Set toKeep\<rparr>))"

subsection \<open>The state file\<close>

text \<open>
  The state file holds the JSON text of an object, kept here as the value that
  \<^verbatim>\<open>JSON.parse\<close> reads from it. \<open>json_seenVideoIds\<close> is its \<^verbatim>\<open>seenVideoIds\<close> when
  that is an array, and \<open>None\<close> when the key is missing or holds something else.
  \<open>json_latestVideoTimestamps\<close> is \<open>None\<close> when \<^verbatim>\<open>latestVideoTimestamps\<close> is missing or
  falsy; for every truthy value it holds \<^verbatim>\<open>Object.entries\<close> of that value as a map: the
  properties of an object, the indexed elements of an array or a string, and no entry
  at all for a number or \<^verbatim>\<open>true\<close>. A file that cannot be read or parsed, or whose text
  is \<^verbatim>\<open>null\<close>, is \<open>Unparsable\<close>; a path with no file gives \<^verbatim>\<open>ENOENT\<close>.
\<close>

record cachedata =
  json_seenVideoIds :: "string list option"
  json_latestVideoTimestamps :: "(string \<rightharpoonup> stored) option"
  json_lastUpdated :: stored
  json_version :: string

datatype filecontent = Json cachedata | Unparsable

type_synonym filesystem = "string \<rightharpoonup> filecontent"

text \<open>
  \<^verbatim>\<open>!this.cacheFile\<close> holds for \<^verbatim>\<open>null\<close> and for the empty string: memory-only mode.
\<close>

definition memoryOnly :: "cache \<Rightarrow> bool" where
  "memoryOnly c = (case cacheFile c of None \<Rightarrow> True | Some path \<Rightarrow> path = [])"

text \<open>
  \<^verbatim>\<open>initialize()\<close>: every failure of reading or parsing is caught and leaves the cache
  as it is. What the file holds replaces what the cache holds, without any comparison.
\<close>

definition initialize :: "filesystem \<Rightarrow> cache \<Rightarrow> cache" where
  "initialize fs c =
     (if memoryOnly c then c
      else (case fs (the (cacheFile c)) of
              None \<Rightarrow> c
            | Some Unparsable \<Rightarrow> c
            | Some (Json cacheData) \<Rightarrow>
                (let c1 = (case json_seenVideoIds cacheData of
                             Some ids \<Rightarrow> c\<lparr>seenVideoIds := new_Set ids\<rparr>
                           | None \<Rightarrow> c)
                 in (case json_latestVideoTimestamps cacheData of
                       Some m \<Rightarrow> c1\<lparr>latestVideoTimestamps := m\<rparr>
                     | None \<Rightarrow> c1))))"

text \<open>
  \<^verbatim>\<open>save(force)\<close>: \<open>now\<close> is \<^verbatim>\<open>Date.now()\<close>, \<open>writable\<close> tells whether
  \<^verbatim>\<open>fs.writeFile\<close> succeeds; a failed write is caught and changes nothing. The file
  holds the identities in the order of the set, the timestamps, the time of writing
  (the clock read again, taken to be \<open>now\<close>) and the version.
\<close>

definition cacheData :: "int \<Rightarrow> cache \<Rightarrow> cachedata" where
  "cacheData now c =
     \<lparr>json_seenVideoIds = Some (seenVideoIds c),
      json_latestVideoTimestamps = Some (latestVideoTimestamps c),
      json_lastUpdated = ISO now,
      json_version = ''1.0.0''\<rparr>"

definition save :: "int \<Rightarrow> bool \<Rightarrow> bool \<Rightarrow> cache \<Rightarrow> filesystem \<Rightarrow> cache \<times> filesystem" where
  "save now writable force c fs =
     (if memoryOnly c then (c, fs)
      else if \<not> force \<and> now - lastSaveTime c < 30000 then (c, fs)
      else if writable then
        (c\<lparr>lastSaveTime := now\<rparr>, fs(the (cacheFile c) \<mapsto> Json (cacheData now c)))
      else (c, fs))"

definition shutdown :: "int \<Rightarrow> bool \<Rightarrow> cache \<Rightarrow> filesystem \<Rightarrow> cache \<times> filesystem" where
  "shutdown now writable c fs = save now writable True c fs"

subsection \<open>DiscordWebhook\<close>

text \<open>A JavaScript number that is an integer, or NaN.\<close>

datatype jsnum = Num int | NaN

fun num_times :: "jsnum \<Rightarrow> int \<Rightarrow> jsnum" where
  "num_times (Num n) k = Num (n * k)"
| "num_times NaN k = NaN"

text \<open>
  The response of \<^verbatim>\<open>fetch\<close>: its status, \<^verbatim>\<open>headers.get('Retry-After')\<close> and the text
  of its body (\<open>None\<close> when \<^verbatim>\<open>response.text()\<close> rejects).
\<close>

record response =
  status :: nat
  retryAfter :: "string option"
  body :: "string option"

definition ok :: "response \<Rightarrow> bool" where
  "ok r = (200 \<le> status r \<and> status r \<le> 299)"

datatype fetch_result = Response response | Throws jserror

fun decimal :: "nat \<Rightarrow> string" where
  "decimal n = (if n < 10 then [''0123456789'' ! n]
                else decimal (n div 10) @ [''0123456789'' ! (n mod 10)])"

fun message :: "jserror \<Rightarrow> string" where
  "message RangeError = ''Invalid time value''"
| "message (HttpError st txt) = ''HTTP '' @ decimal st @ '': '' @ txt"
| "message (JsError nm msg) = msg"

definition RATE_LIMIT_REQUESTS :: nat where
  "RATE_LIMIT_REQUESTS = 5"

definition RATE_LIMIT_WINDOW_MS :: int where
  "RATE_LIMIT_WINDOW_MS = 2000"

record 'p discord_webhook =
  webhookUrl :: string
  requestQueue :: "'p list"
  requestTimestamps :: "int list"
  isProcessing :: bool

definition DiscordWebhook :: "string \<Rightarrow> 'p discord_webhook" where
  "DiscordWebhook url =
     \<lparr>webhookUrl = url, requestQueue = [], requestTimestamps = [], isProcessing = False\<rparr>"

text \<open>\<^verbatim>\<open>_canMakeRequest()\<close> drops the timestamps outside the window and compares the rest
  with the quota.\<close>

definition canMakeRequest :: "int \<Rightarrow> 'p discord_webhook \<Rightarrow> bool \<times> 'p discord_webhook" where
  "canMakeRequest now w =
     (let w1 = w\<lparr>requestTimestamps :=
                   filter (\<lambda>timestamp. now - timestamp < RATE_LIMIT_WINDOW_MS) (requestTimestamps w)\<rparr>
      in (length (requestTimestamps w1) < RATE_LIMIT_REQUESTS, w1))"

definition calculateDelay :: "int \<Rightarrow> 'p discord_webhook \<Rightarrow> int" where
  "calculateDelay now w =
     (case requestTimestamps w of
        [] \<Rightarrow> 0
      | oldestRequest # _ \<Rightarrow>
          (let timeSinceOldest = now - oldestRequest
           in if timeSinceOldest \<ge> RATE_LIMIT_WINDOW_MS then 0
              else RATE_LIMIT_WINDOW_MS - timeSinceOldest))"

text \<open>
  The head of the loop of \<^verbatim>\<open>_processQueue\<close>: the time to sleep before the next send
  (zero when there is no sleep). \<open>now\<close> is the clock read by \<^verbatim>\<open>_canMakeRequest\<close>,
  \<open>now'\<close> the one read by \<^verbatim>\<open>_calculateDelay\<close>.
\<close>

definition processQueue_delay :: "int \<Rightarrow> int \<Rightarrow> 'p discord_webhook \<Rightarrow> int \<times> 'p discord_webhook" where
  "processQueue_delay now now' w =
     (case canMakeRequest now w of
        (can, w1) \<Rightarrow> if \<not> can then (calculateDelay now' w1, w1) else (0, w1))"

definition maxRetries :: nat where
  "maxRetries = 3"

definition baseDelay :: int where
  "baseDelay = 1000"

text \<open>
  One activation of \<^verbatim>\<open>_sendWebhook(payload, retryCount)\<close> after its \<^verbatim>\<open>fetch\<close> has
  settled: it returns or throws (\<open>Done\<close>), or it sleeps and calls itself with
  \<^verbatim>\<open>retryCount + 1\<close> (\<open>Retry\<close> with the time slept). \<open>parseInt\<close> is JavaScript's.
\<close>

datatype activation = Done "jserror + response" | Retry jsnum

definition catch_clause :: "nat \<Rightarrow> jserror \<Rightarrow> activation" where
  "catch_clause retryCount e =
     (if retryCount < maxRetries \<and> error_name e \<noteq> ''AbortError''
      then Retry (Num (baseDelay * 2 ^ retryCount))
      else Done (Inl e))"

definition rateLimitDelay :: "(string \<Rightarrow> jsnum) \<Rightarrow> response \<Rightarrow> nat \<Rightarrow> jsnum" where
  "rateLimitDelay parseInt r retryCount =
     (case retryAfter r of
        None \<Rightarrow> Num (baseDelay * 2 ^ retryCount)
      | Some h \<Rightarrow> if h \<noteq> [] then num_times (parseInt h) 1000
                  else Num (baseDelay * 2 ^ retryCount))"

definition errorText :: "response \<Rightarrow> string" where
  "errorText r = (case body r of Some txt \<Rightarrow> txt | None \<Rightarrow> ''Unknown error'')"

definition try_clause :: "(string \<Rightarrow> jsnum) \<Rightarrow> nat \<Rightarrow> fetch_result \<Rightarrow> activation" where
  "try_clause parseInt retryCount fr =
     (case fr of
        Throws e \<Rightarrow> catch_clause retryCount e
      | Response r \<Rightarrow>
          if status r = 429 \<and> retryCount < maxRetries
          then Retry (rateLimitDelay parseInt r retryCount)
          else if \<not> ok r
          then catch_clause retryCount (HttpError (status r) (errorText r))
          else Done (Inr r))"

text \<open>
  \<^verbatim>\<open>_sendWebhook(payload, retryCount)\<close>: \<open>fetch payload k\<close> is what the \<^verbatim>\<open>fetch\<close> of
  the activation with \<^verbatim>\<open>retryCount = k\<close> settles to. The result is the list of the
  delays passed to \<^verbatim>\<open>_sleep\<close>, in order, and what the call returns (\<open>Inr\<close>) or throws
  (\<open>Inl\<close>). The recursive call is returned without \<^verbatim>\<open>await\<close>, so its rejection is
  not caught again.
\<close>

function sendWebhook ::
  "(string \<Rightarrow> jsnum) \<Rightarrow> ('p \<Rightarrow> nat \<Rightarrow> fetch_result) \<Rightarrow> 'p \<Rightarrow> nat \<Rightarrow> jsnum list \<times> (jserror + response)" where
  "sendWebhook parseInt fetch payload retryCount =
     (case try_clause parseInt retryCount (fetch payload retryCount) of
        Done r \<Rightarrow> ([], r)
      | Retry delay \<Rightarrow>
          (case sendWebhook parseInt fetch payload (retryCount + 1) of
             (sleeps, r) \<Rightarrow> (delay # sleeps, r)))"
  by pat_completeness auto
termination
  by (relation "measure (\<lambda>(parseInt, fetch, payload, retryCount). maxRetries - retryCount)")
     (auto simp: try_clause_def catch_clause_def split: fetch_result.splits if_splits)

declare sendWebhook.simps [simp del]

text \<open>\<^verbatim>\<open>_createVideoEmbed(video)\<close> and the payload that is queued.\<close>

record embed =
  embed_title :: string
  embed_url :: string
  embed_color :: nat
  author_name :: string
  author_url :: string
  image_url :: "string option"

definition createVideoEmbed :: "video \<Rightarrow> embed" where
  "createVideoEmbed v =
     \<lparr>embed_title = title v,
      embed_url = link v,
      embed_color = 16711680,
      author_name = channelName v,
      author_url = ''https://www.youtube.com/channel/''
                     @ (if sourceType v = ''channel'' then sourceId v else []),
      image_url = (case thumbnail v of
                     None \<Rightarrow> None
                   | Some t \<Rightarrow>
                       if t = [] then None
                       else if videoId v \<noteq> []
                       then Some (''https://i.ytimg.com/vi/'' @ videoId v @ ''/maxresdefault.jpg'')
                       else Some t)\<rparr>"

text \<open>
  \<^verbatim>\<open>DiscordWebhook.postVideoNotification(video)\<close>: the promise settles to what
  \<^verbatim>\<open>_sendWebhook\<close> returns or throws for the queued payload.
\<close>

definition postVideoNotification ::
  "(string \<Rightarrow> jsnum) \<Rightarrow> (embed list \<Rightarrow> nat \<Rightarrow> fetch_result) \<Rightarrow> video \<Rightarrow> jserror + response" where
  "postVideoNotification parseInt fetch v = snd (sendWebhook parseInt fetch [createVideoEmbed v] 0)"

text \<open>
  \<^verbatim>\<open>DiscordWebhook.postVideoNotifications(videos)\<close>: one result per video, in order;
  \<open>webhook\<close> is what \<^verbatim>\<open>postVideoNotification\<close> settles to.
\<close>

record post_result =
  post_video :: string
  post_success :: bool
  post_error :: "string option"

definition postVideoNotifications :: "(video \<Rightarrow> jserror + 'r) \<Rightarrow> video list \<Rightarrow> post_result list" where
  "postVideoNotifications webhook videos =
     map (\<lambda>v. case webhook v of
                 Inr _ \<Rightarrow> \<lparr>post_video = videoId v, post_success = True, post_error = None\<rparr>
               | Inl e \<Rightarrow> \<lparr>post_video = videoId v, post_success = False,
                           post_error = Some (message e)\<rparr>)
         videos"

subsection \<open>MultiDiscordWebhook\<close>

record outcome =
  webhookIndex :: nat
  success :: bool
  error :: "string option"

text \<open>What \<^verbatim>\<open>Promise.allSettled\<close> reports for one promise.\<close>

datatype 'a settled = Fulfilled 'a | Rejected "jserror option"

text \<open>The constructor refuses an empty list of addresses.\<close>

definition MultiDiscordWebhook :: "string list \<Rightarrow> jserror + (embed list) discord_webhook list" where
  "MultiDiscordWebhook webhookUrls =
     (if length webhookUrls = 0
      then Inl (JsError ''Error'' ''At least one Discord webhook URL is required'')
      else Inr (map DiscordWebhook webhookUrls))"

text \<open>
  The asynchronous function mapped over the webhooks: it awaits the webhook inside
  \<^verbatim>\<open>try\<close> and turns a rejection into a value.
\<close>

definition postToWebhook :: "(video \<Rightarrow> jserror + 'r) \<Rightarrow> nat \<Rightarrow> video \<Rightarrow> outcome settled" where
  "postToWebhook webhook index v =
     (case webhook v of
        Inr _ \<Rightarrow> Fulfilled \<lparr>webhookIndex = index, success = True, error = None\<rparr>
      | Inl e \<Rightarrow> Fulfilled \<lparr>webhookIndex = index, success = False, error = Some (message e)\<rparr>)"

definition settledOutcome :: "nat \<Rightarrow> outcome settled \<Rightarrow> outcome" where
  "settledOutcome index result =
     (case result of
        Fulfilled v \<Rightarrow> v
      | Rejected reason \<Rightarrow>
          \<lparr>webhookIndex = index, success = False,
           error = Some (case reason of
                           None \<Rightarrow> ''Unknown error''
                         | Some e \<Rightarrow> if message e = [] then ''Unknown error'' else message e)\<rparr>)"

text \<open>\<^verbatim>\<open>MultiDiscordWebhook.postVideoNotification(video)\<close>.\<close>

definition multiPostVideoNotification :: "(video \<Rightarrow> jserror + 'r) list \<Rightarrow> video \<Rightarrow> outcome list" where
  "multiPostVideoNotification webhooks v =
     (let promises = map (\<lambda>(index, webhook). postToWebhook webhook index v) (enumerate 0 webhooks);
          webhookResults = promises
      in map (\<lambda>(index, result). settledOutcome index result) (enumerate 0 webhookResults))"

subsection \<open>The cycle processor\<close>

record config =
  testMode :: bool
  developmentMode :: bool

record cycle_result =
  processed :: nat
  posted :: nat

text \<open>
  \<^verbatim>\<open>processVideos(videos)\<close> of \<^verbatim>\<open>index.js\<close>. \<open>discordWebhook\<close> is the global of that
  name (unset in test mode), given by what its \<^verbatim>\<open>postVideoNotification\<close> settles to;
  \<open>now\<close> and \<open>writable\<close> are those of the \<^verbatim>\<open>save\<close> at the end. An exception of the
  cache leaves the function.
\<close>

definition index_processVideos ::
  "config \<Rightarrow> (video \<Rightarrow> jserror + 'r) option \<Rightarrow> int \<Rightarrow> bool \<Rightarrow> video list \<Rightarrow> cache \<Rightarrow> filesystem
     \<Rightarrow> (cache \<times> filesystem) \<times> (jserror + cycle_result)" where
  "index_processVideos cfg discordWebhook now writable videos c fs =
     (if length videos = 0 then ((c, fs), Inr \<lparr>processed = 0, posted = 0\<rparr>)
      else
        (let mode = (if testMode cfg then ''test''
                     else if developmentMode cfg then ''development''
                     else ''production'')
         in (case processVideos videos (isInitialRun c) mode c of
               (c1, Inl e) \<Rightarrow> ((c1, fs), Inl e)
             | (c1, Inr newVideos) \<Rightarrow>
                 if length newVideos = 0
                 then ((c1, fs), Inr \<lparr>processed = length videos, posted = 0\<rparr>)
                 else
                   (let postedCount =
                          (case discordWebhook of
                             None \<Rightarrow> 0
                           | Some webhook \<Rightarrow>
                               if \<not> testMode cfg
                               then length (filter post_success
                                              (postVideoNotifications webhook newVideos))
                               else 0)
                    in (save now writable False c1 fs,
                        Inr \<lparr>processed = length videos, posted = postedCount\<rparr>)))))"

subsection \<open>The operations of a cache, for its lifetime\<close>



text \<open>
  What is stored for a source is newer than what was stored before when there was
  nothing before; or when it is a timestamp and what was stored before was falsy (so no
  timestamp) or had a strictly older date.
\<close>

definition newer :: "stored option \<Rightarrow> stored option \<Rightarrow> bool" where
  "newer old new =
     (case new of
        None \<Rightarrow> False
      | Some n \<Rightarrow>
          (case old of
             None \<Rightarrow> True
           | Some prev \<Rightarrow>
               (case n of
                  Foreign b d \<Rightarrow> False
                | ISO t' \<Rightarrow>
                    \<not> truthy prev
                    \<or> (case newDate prev of TimeValue t \<Rightarrow> t < t' | InvalidDate \<Rightarrow> False))))"


subsection \<open>Concrete inputs\<close>

definition example_video :: "string \<Rightarrow> string \<Rightarrow> int \<Rightarrow> video" where
  "example_video i src t =
     \<lparr>videoId = i, title = ''title'', link = ''link'', published = TimeValue t,
      channelName = ''name'', thumbnail = None, sourceType = ''channel'', sourceId = src\<rparr>"

definition example_cache :: "string list \<Rightarrow> cache" where
  "example_cache seen =
     \<lparr>cacheFile = Some ''videos.json'', seenVideoIds = seen,
      latestVideoTimestamps = Map.empty, lastSaveTime = 0\<rparr>"

definition example_config :: config where
  "example_config = \<lparr>testMode = False, developmentMode = False\<rparr>"

definition example_endpoint :: "int list \<Rightarrow> unit discord_webhook" where
  "example_endpoint ts =
     \<lparr>webhookUrl = ''https://discord.com/api/webhooks/1/x'', requestQueue = [],
      requestTimestamps = ts, isProcessing = False\<rparr>"

definition example_parseInt :: "string \<Rightarrow> jsnum" where
  "example_parseInt s = (if s = ''2'' then Num 2 else NaN)"

definition example_fetch :: "unit \<Rightarrow> nat \<Rightarrow> fetch_result" where
  "example_fetch payload k =
     (if k = 0 then Throws (JsError ''TypeError'' ''fetch failed'')
      else if k = 1 then Response \<lparr>status = 429, retryAfter = Some ''2'', body = None\<rparr>
      else if k = 2 then Response \<lparr>status = 500, retryAfter = None, body = Some ''oops''\<rparr>
      else Response \<lparr>status = 503, retryAfter = None, body = None\<rparr>)"

text \<open>A webhook whose address always answers 204, and one whose address always answers 500.\<close>

definition example_webhook :: "video \<Rightarrow> jserror + response" where
  "example_webhook =
     postVideoNotification example_parseInt
       (\<lambda>payload k. Response \<lparr>status = 204, retryAfter = None, body = None\<rparr>)"

definition failing_webhook :: "video \<Rightarrow> jserror + response" where
  "failing_webhook =
     postVideoNotification example_parseInt
       (\<lambda>payload k. Response \<lparr>status = 500, retryAfter = None, body = Some ''down''\<rparr>)"

section \<open>Properties\<close>

subsection \<open>The set of seen identities\<close>

lemma Set_add_set: "set (Set_add x s) = insert x (set s)"
  by (auto simp: Set_add_def)

lemma new_Set_fold_set: "set (fold Set_add xs s) = set xs \<union> set s"
  by (induction xs arbitrary: s) (auto simp: Set_add_set)

lemma new_Set_set: "set (new_Set xs) = set xs"
  by (simp add: new_Set_def new_Set_fold_set)

lemma slice_subset: "set (slice k xs) \<subseteq> set xs"
  by (auto simp: slice_def Let_def dest: in_set_dropD)



lemma fold_mark_set:
  "set (seenVideoIds (fold (\<lambda>v. markAsSeen (f v)) vs c)) = set (seenVideoIds c) \<union> f ` set vs"
  by (induction vs arbitrary: c) (auto simp: markAsSeen_def Set_add_set)

lemma fold_mark_append:
  "\<exists>added. seenVideoIds (fold (\<lambda>v. markAsSeen (f v)) vs c) = seenVideoIds c @ added
     \<and> set added \<inter> set (seenVideoIds c) = {}"
proof (induction vs arbitrary: c)
  case Nil
  show ?case by simp
next
  case (Cons v vs)
  obtain added where a: "seenVideoIds (fold (\<lambda>v. markAsSeen (f v)) vs (markAsSeen (f v) c))
      = seenVideoIds (markAsSeen (f v) c) @ added"
    and d: "set added \<inter> set (seenVideoIds (markAsSeen (f v) c)) = {}"
    using Cons.IH by blast
  show ?case
  proof (cases "f v \<in> set (seenVideoIds c)")
    case True
    then have "seenVideoIds (markAsSeen (f v) c) = seenVideoIds c"
      by (simp add: markAsSeen_def Set_add_def)
    with a d show ?thesis by auto
  next
    case False
    then have e: "seenVideoIds (markAsSeen (f v) c) = seenVideoIds c @ [f v]"
      by (simp add: markAsSeen_def Set_add_def)
    have "seenVideoIds (fold (\<lambda>v. markAsSeen (f v)) (v # vs) c) = seenVideoIds c @ (f v # added)"
      using a e by simp
    moreover have "set (f v # added) \<inter> set (seenVideoIds c) = {}"
      using d e False by auto
    ultimately show ?thesis by blast
  qed
qed

lemma updateLatestTimestamp_frame:
  assumes "updateLatestTimestamp k d c = Inr c'"
  shows "seenVideoIds c' = seenVideoIds c" "cacheFile c' = cacheFile c" "lastSaveTime c' = lastSaveTime c"
  using assms
  by (auto simp: updateLatestTimestamp_def Let_def split: if_splits sum.splits option.splits)

lemma updateAll_frame:
  "seenVideoIds (fst (updateAll m c)) = seenVideoIds c
   \<and> cacheFile (fst (updateAll m c)) = cacheFile c
   \<and> lastSaveTime (fst (updateAll m c)) = lastSaveTime c"
proof (induction m c rule: updateAll.induct)
  case (1 c)
  show ?case by simp
next
  case (2 k ts rest c)
  show ?case
  proof (cases "updateLatestTimestamp k ts c")
    case (Inl e)
    then show ?thesis by simp
  next
    case (Inr c')
    with 2 updateLatestTimestamp_frame[OF Inr] show ?thesis by simp
  qed
qed

lemma onePerSource_subset: "set (onePerSource vs s acc) \<subseteq> set acc \<union> set vs"
  by (induction vs s acc rule: onePerSource.induct) auto

lemma filterNewVideos_unseen: "v \<in> set (filterNewVideos c vs) \<Longrightarrow> videoId v \<notin> set (seenVideoIds c)"
  by (simp add: filterNewVideos_def hasBeenSeen_def)

lemma processVideos_result_unseen:
  assumes "snd (processVideos videos f mode c) = Inr r" "v \<in> set r"
  shows "videoId v \<notin> set (seenVideoIds c)"
proof -
  obtain c1 eo where u: "updateAll (sourceTimestamps videos []) c = (c1, eo)"
    by (cases "updateAll (sourceTimestamps videos []) c")
  have s: "seenVideoIds c1 = seenVideoIds c"
    using updateAll_frame[of "sourceTimestamps videos []" c] u by simp
  show ?thesis
  proof (cases eo)
    case (Some e)
    with assms u show ?thesis by (simp add: processVideos_def)
  next
    case None
    with assms u have "v \<in> set (filterNewVideos c1 videos)"
      using onePerSource_subset[of "filterNewVideos c1 videos" "[]" "[]"]
      by (auto simp: processVideos_def Let_def split: if_splits)
    then show ?thesis using s filterNewVideos_unseen by metis
  qed
qed

lemma processVideos_seen_append:
  "\<exists>added. seenVideoIds (fst (processVideos videos f mode c)) = seenVideoIds c @ added
     \<and> set added \<inter> set (seenVideoIds c) = {}"
proof -
  obtain c1 eo where u: "updateAll (sourceTimestamps videos []) c = (c1, eo)"
    by (cases "updateAll (sourceTimestamps videos []) c")
  have s: "seenVideoIds c1 = seenVideoIds c"
    using updateAll_frame[of "sourceTimestamps videos []" c] u by simp
  show ?thesis
  proof (cases eo)
    case (Some e)
    with u s show ?thesis by (simp add: processVideos_def)
  next
    case None
    show ?thesis
      using u None s fold_mark_append[of videoId _ c1]
      by (auto simp: processVideos_def Let_def)
  qed
qed

subsection \<open>The concrete inputs, evaluated\<close>

lemma example_webhook_resolves:
  "example_webhook v = Inr \<lparr>status = 204, retryAfter = None, body = None\<rparr>"
  by (simp add: example_webhook_def postVideoNotification_def sendWebhook.simps try_clause_def ok_def)

lemma failing_webhook_rejects: "failing_webhook v = Inl (HttpError 500 ''down'')"
  by (simp add: failing_webhook_def postVideoNotification_def sendWebhook.simps try_clause_def
      catch_clause_def maxRetries_def ok_def errorText_def)

lemmas example_simps = example_video_def example_cache_def sourceKey_def
  updateLatestTimestamp_def filterNewVideos_def hasBeenSeen_def markAsSeen_def Set_add_def
  processVideos_def isInitialRun_def

subsection \<open>Seen videos are not delivered again\<close>

text \<open>
  Claim C1. Whatever the cache, the list of videos, the flag \<open>isInitialRun\<close> and the mode
  (so in the initial production run, in development mode and in normal operation), a
  video whose identity is in \<open>seenVideoIds\<close> before \<^verbatim>\<open>processVideos\<close> is not in the
  list returned, and it is not marked again: the identities seen before the call stay
  as they were, and what the call appends after them does not contain that identity.
\<close>

theorem seen_never_delivered_nor_remarked:
  assumes "videoId v \<in> set (seenVideoIds c)"
  shows "(\<forall>r. snd (processVideos videos f mode c) = Inr r \<longrightarrow> v \<notin> set r)
       \<and> take (length (seenVideoIds c)) (seenVideoIds (fst (processVideos videos f mode c)))
           = seenVideoIds c
       \<and> videoId v \<notin> set (drop (length (seenVideoIds c))
                               (seenVideoIds (fst (processVideos videos f mode c))))"
proof -
  obtain added where a: "seenVideoIds (fst (processVideos videos f mode c)) = seenVideoIds c @ added"
    and d: "set added \<inter> set (seenVideoIds c) = {}"
    using processVideos_seen_append by blast
  have "\<forall>r. snd (processVideos videos f mode c) = Inr r \<longrightarrow> v \<notin> set r"
    using processVideos_result_unseen assms by blast
  moreover have "videoId v \<notin> set added" using d assms by auto
  ultimately show ?thesis using a by simp
qed

text \<open>Claim C1, at a concrete input.\<close>

theorem seen_never_delivered_nor_remarked_witness:
  "videoId (example_video ''a'' ''C1'' 10) \<in> set (seenVideoIds (example_cache [''a'']))
   \<and> snd (processVideos [example_video ''a'' ''C1'' 10, example_video ''b'' ''C1'' 20]
            False ''production'' (example_cache [''a''])) = Inr [example_video ''b'' ''C1'' 20]
   \<and> example_video ''a'' ''C1'' 10 \<notin> set [example_video ''b'' ''C1'' 20]
   \<and> seenVideoIds (fst (processVideos [example_video ''a'' ''C1'' 10, example_video ''b'' ''C1'' 20]
            False ''production'' (example_cache [''a'']))) = [''a'', ''b'']"
  using seen_never_delivered_nor_remarked [of "example_video ''a'' ''C1'' 10" "example_cache [''a'']"
      "[example_video ''a'' ''C1'' 10, example_video ''b'' ''C1'' 20]" False "''production''"]
  by (simp add: example_simps)

subsection \<open>The save at the end of a cycle\<close>

lemma save_writes:
  assumes "\<not> memoryOnly c" "force \<or> 30000 \<le> now - lastSaveTime c" "writable"
  shows "save now writable force c fs
           = (c\<lparr>lastSaveTime := now\<rparr>, fs(the (cacheFile c) \<mapsto> Json (cacheData now c)))"
  using assms by (auto simp: save_def)

lemma save_skips:
  assumes "memoryOnly c \<or> (\<not> force \<and> now - lastSaveTime c < 30000) \<or> \<not> writable"
  shows "save now writable force c fs = (c, fs)"
  using assms by (auto simp: save_def)

text \<open>
  Claim C2 as stated fails: a production cycle with a delivery list of one video, 1000 ms
  after the last save, posts the notification and leaves no state file, where a forced
  save would have written one.
\<close>

theorem cycle_save_not_forced_counterexample:
  "snd (processVideos [example_video ''b'' ''C1'' 20] (isInitialRun (example_cache [''a'']))
          ''production'' (example_cache [''a''])) = Inr [example_video ''b'' ''C1'' 20]
   \<and> snd (index_processVideos example_config (Some example_webhook) 1000 True
            [example_video ''b'' ''C1'' 20] (example_cache [''a'']) Map.empty)
       = Inr \<lparr>processed = 1, posted = 1\<rparr>
   \<and> 1000 - lastSaveTime (fst (processVideos [example_video ''b'' ''C1'' 20]
          (isInitialRun (example_cache [''a''])) ''production'' (example_cache [''a'']))) < 30000
   \<and> snd (fst (index_processVideos example_config (Some example_webhook) 1000 True
            [example_video ''b'' ''C1'' 20] (example_cache [''a'']) Map.empty)) ''videos.json''
       = None
   \<and> snd (save 1000 True True
           (fst (processVideos [example_video ''b'' ''C1'' 20]
              (isInitialRun (example_cache [''a''])) ''production'' (example_cache [''a''])))
           Map.empty) ''videos.json'' \<noteq> None"
  by (simp add: example_simps index_processVideos_def example_config_def example_webhook_resolves
      postVideoNotifications_def save_def memoryOnly_def)

text \<open>
  Claim C2, as amended. In a polling cycle whose delivery list is not empty, after the
  notifications have been posted the cycle processor calls \<^verbatim>\<open>save()\<close> without the force
  flag: what it leaves is what the unforced \<^verbatim>\<open>save\<close> leaves, so the state file is written
  exactly when a cache file is configured, at least 30000 ms have passed since the last
  save and the write succeeds, and it is left as it was otherwise.
\<close>

theorem cycle_save_is_throttled:
  assumes "processVideos videos (isInitialRun c)
             (if testMode cfg then ''test''
              else if developmentMode cfg then ''development'' else ''production'') c
           = (c1, Inr newVideos)"
    and "newVideos \<noteq> []"
  shows "fst (index_processVideos cfg discordWebhook now writable videos c fs)
           = save now writable False c1 fs
       \<and> snd (fst (index_processVideos cfg discordWebhook now writable videos c fs))
           = (if \<not> memoryOnly c1 \<and> 30000 \<le> now - lastSaveTime c1 \<and> writable
              then fs(the (cacheFile c1) \<mapsto> Json (cacheData now c1))
              else fs)"
proof -
  have "videos \<noteq> []"
  proof
    assume "videos = []"
    then have "snd (processVideos videos (isInitialRun c)
             (if testMode cfg then ''test''
              else if developmentMode cfg then ''development'' else ''production'') c) = Inr []"
      by (simp add: processVideos_def filterNewVideos_def)
    with assms show False by simp
  qed
  then have "fst (index_processVideos cfg discordWebhook now writable videos c fs)
           = save now writable False c1 fs"
    using assms by (simp add: index_processVideos_def Let_def)
  then show ?thesis by (auto simp: save_def)
qed

text \<open>Claim C2, at a concrete input.\<close>

theorem cycle_save_is_throttled_witness:
  "processVideos [example_video ''b'' ''C1'' 20] (isInitialRun (example_cache [''a'']))
      (if testMode example_config then ''test''
       else if developmentMode example_config then ''development'' else ''production'')
      (example_cache [''a''])
     = ((example_cache [''a'', ''b''])\<lparr>latestVideoTimestamps := [''channel:C1'' \<mapsto> ISO 20]\<rparr>,
        Inr [example_video ''b'' ''C1'' 20])
   \<and> [example_video ''b'' ''C1'' 20] \<noteq> []
   \<and> snd (fst (index_processVideos example_config (Some example_webhook) 1000 True
            [example_video ''b'' ''C1'' 20] (example_cache [''a'']) Map.empty)) = Map.empty
   \<and> snd (fst (index_processVideos example_config (Some example_webhook) 30000 True
            [example_video ''b'' ''C1'' 20] (example_cache [''a'']) Map.empty)) ''videos.json''
       = Some (Json \<lparr>json_seenVideoIds = Some [''a'', ''b''],
                     json_latestVideoTimestamps = Some [''channel:C1'' \<mapsto> ISO 20],
                     json_lastUpdated = ISO 30000, json_version = ''1.0.0''\<rparr>)"
proof -
  have p: "processVideos [example_video ''b'' ''C1'' 20] (isInitialRun (example_cache [''a'']))
      (if testMode example_config then ''test''
       else if developmentMode example_config then ''development'' else ''production'')
      (example_cache [''a''])
     = ((example_cache [''a'', ''b''])\<lparr>latestVideoTimestamps := [''channel:C1'' \<mapsto> ISO 20]\<rparr>,
        Inr [example_video ''b'' ''C1'' 20])"
    by (simp add: example_simps example_config_def)
  have n: "[example_video ''b'' ''C1'' 20] \<noteq> []" by simp
  have a: "snd (fst (index_processVideos example_config (Some example_webhook) 1000 True
            [example_video ''b'' ''C1'' 20] (example_cache [''a'']) Map.empty)) = Map.empty"
    using cycle_save_is_throttled [OF p n, of "Some example_webhook" 1000 True Map.empty]
    by (simp add: example_cache_def save_def memoryOnly_def)
  have b: "snd (fst (index_processVideos example_config (Some example_webhook) 30000 True
            [example_video ''b'' ''C1'' 20] (example_cache [''a'']) Map.empty)) ''videos.json''
       = Some (Json \<lparr>json_seenVideoIds = Some [''a'', ''b''],
                     json_latestVideoTimestamps = Some [''channel:C1'' \<mapsto> ISO 20],
                     json_lastUpdated = ISO 30000, json_version = ''1.0.0''\<rparr>)"
    using cycle_save_is_throttled [OF p n, of "Some example_webhook" 30000 True Map.empty]
    by (simp add: example_cache_def save_def memoryOnly_def cacheData_def)
  from p n a b show ?thesis by blast
qed

subsection \<open>The initial production run\<close>

lemma update_set_subset: "set (AList.update k d m) \<subseteq> insert (k, d) (set m)"
  by (induction m) auto

lemma sourceTimestamps_valid:
  "\<forall>v\<in>set vs. published v \<noteq> InvalidDate \<Longrightarrow> \<forall>p\<in>set m. snd p \<noteq> InvalidDate
   \<Longrightarrow> \<forall>p\<in>set (sourceTimestamps vs m). snd p \<noteq> InvalidDate"
proof (induction vs arbitrary: m)
  case Nil
  then show ?case by simp
next
  case (Cons v vs)
  have u: "\<forall>p\<in>set (AList.update (sourceKey v) (published v) m). snd p \<noteq> InvalidDate"
    using update_set_subset[of "sourceKey v" "published v" m] Cons.prems by auto
  show ?case
  proof (cases "map_of m (sourceKey v)")
    case None
    then show ?thesis using Cons.IH[OF _ u] Cons.prems by simp
  next
    case (Some cur)
    then show ?thesis
      using Cons.IH[OF _ u] Cons.IH[OF _ Cons.prems(2)] Cons.prems by (simp add: Let_def)
  qed
qed

lemma updateLatestTimestamp_valid:
  "d \<noteq> InvalidDate \<Longrightarrow> \<exists>c'. updateLatestTimestamp k d c = Inr c'"
  by (cases d) (auto simp: updateLatestTimestamp_def Let_def)

lemma updateAll_valid:
  "\<forall>p\<in>set m. snd p \<noteq> InvalidDate \<Longrightarrow> snd (updateAll m c) = None"
proof (induction m c rule: updateAll.induct)
  case (1 c)
  show ?case by simp
next
  case (2 k ts rest c)
  then have "ts \<noteq> InvalidDate" by simp
  then obtain c' where c': "updateLatestTimestamp k ts c = Inr c'"
    using updateLatestTimestamp_valid by blast
  with 2 show ?case by simp
qed

lemma processVideos_updates:
  assumes "\<forall>v\<in>set videos. published v \<noteq> InvalidDate"
  shows "\<exists>c1. updateAll (sourceTimestamps videos []) c = (c1, None)
            \<and> seenVideoIds c1 = seenVideoIds c"
proof -
  have "snd (updateAll (sourceTimestamps videos []) c) = None"
    using updateAll_valid sourceTimestamps_valid[OF assms, of "[]"] by simp
  then show ?thesis
    using updateAll_frame[of "sourceTimestamps videos []" c]
    by (cases "updateAll (sourceTimestamps videos []) c") simp
qed

text \<open>
  With an invalid publication date for a source that has no stored timestamp, the call
  throws and marks nothing.
\<close>

lemma processVideos_invalid_date_throws:
  "processVideos [(example_video ''a'' ''C1'' 10)\<lparr>published := InvalidDate\<rparr>] True ''production''
      (example_cache [])
     = (example_cache [], Inl RangeError)"
  by (simp add: example_simps)

text \<open>
  Claim C3 as stated fails: with a video whose publication date is invalid, the initial
  production run throws a RangeError, returns nothing and marks nothing.
\<close>

theorem bootstrap_quiet_invalid_date_counterexample:
  "isInitialRun (example_cache [])
   \<and> snd (processVideos [(example_video ''a'' ''C1'' 10)\<lparr>published := InvalidDate\<rparr>]
            (isInitialRun (example_cache [])) ''production'' (example_cache []))
       = Inl RangeError
   \<and> snd (processVideos [(example_video ''a'' ''C1'' 10)\<lparr>published := InvalidDate\<rparr>]
            (isInitialRun (example_cache [])) ''production'' (example_cache []))
       \<noteq> Inr []
   \<and> seenVideoIds (fst (processVideos [(example_video ''a'' ''C1'' 10)\<lparr>published := InvalidDate\<rparr>]
            (isInitialRun (example_cache [])) ''production'' (example_cache []))) = []
   \<and> set (seenVideoIds (fst (processVideos
            [(example_video ''a'' ''C1'' 10)\<lparr>published := InvalidDate\<rparr>]
            (isInitialRun (example_cache [])) ''production'' (example_cache []))))
       \<noteq> videoId ` set [(example_video ''a'' ''C1'' 10)\<lparr>published := InvalidDate\<rparr>]"
  by (simp add: example_simps)

text \<open>
  Claim C3, as amended. When the cache reports an initial run (\<open>seenVideoIds\<close> is empty),
  the mode is production and every video given carries a valid publication date,
  \<^verbatim>\<open>processVideos\<close> returns the empty list, and afterwards the identities seen are
  exactly those of the videos given.
\<close>

theorem bootstrap_quiet:
  assumes "isInitialRun c" and "\<forall>v\<in>set videos. published v \<noteq> InvalidDate"
  shows "snd (processVideos videos (isInitialRun c) ''production'' c) = Inr []
       \<and> set (seenVideoIds (fst (processVideos videos (isInitialRun c) ''production'' c)))
           = videoId ` set videos"
proof -
  obtain c1 where u: "updateAll (sourceTimestamps videos []) c = (c1, None)"
    and s: "seenVideoIds c1 = seenVideoIds c"
    using processVideos_updates[OF assms(2)] by blast
  have e: "seenVideoIds c = []" using assms(1) by (simp add: isInitialRun_def)
  show ?thesis
    using u s e assms(1) by (simp add: processVideos_def fold_mark_set)
qed

text \<open>Claim C3, at a concrete input.\<close>

theorem bootstrap_quiet_witness:
  "isInitialRun (example_cache [])
   \<and> published (example_video ''a'' ''C1'' 10) \<noteq> InvalidDate
   \<and> published (example_video ''b'' ''C1'' 20) \<noteq> InvalidDate
   \<and> published (example_video ''c'' ''C2'' 5) \<noteq> InvalidDate
   \<and> snd (processVideos [example_video ''a'' ''C1'' 10, example_video ''b'' ''C1'' 20, example_video ''c'' ''C2'' 5]
            (isInitialRun (example_cache [])) ''production'' (example_cache [])) = Inr []
   \<and> set (seenVideoIds (fst (processVideos
            [example_video ''a'' ''C1'' 10, example_video ''b'' ''C1'' 20, example_video ''c'' ''C2'' 5]
            (isInitialRun (example_cache [])) ''production'' (example_cache []))))
       = {''a'', ''b'', ''c''}"
  using bootstrap_quiet [of "example_cache []"
      "[example_video ''a'' ''C1'' 10, example_video ''b'' ''C1'' 20, example_video ''c'' ''C2'' 5]"]
  by (simp add: example_video_def example_cache_def isInitialRun_def)

subsection \<open>Normal operation\<close>

lemma filterNewVideos_all:
  "\<forall>v\<in>set vs. videoId v \<notin> set (seenVideoIds c) \<Longrightarrow> filterNewVideos c vs = vs"
  by (simp add: filterNewVideos_def hasBeenSeen_def)

lemma filterNewVideos_none:
  "videoId ` set vs \<subseteq> set (seenVideoIds c) \<Longrightarrow> filterNewVideos c vs = []"
  by (auto simp: filterNewVideos_def hasBeenSeen_def filter_empty_conv)

text \<open>
  Claim C4 as stated fails: in normal operation, with one unseen video whose publication
  date is invalid, \<^verbatim>\<open>processVideos\<close> throws a RangeError, returns nothing and marks
  nothing.
\<close>

theorem full_policy_invalid_date_counterexample:
  "videoId ((example_video ''a'' ''C1'' 10)\<lparr>published := InvalidDate\<rparr>)
     \<notin> set (seenVideoIds (example_cache [''z'']))
   \<and> snd (processVideos [(example_video ''a'' ''C1'' 10)\<lparr>published := InvalidDate\<rparr>]
            False ''production'' (example_cache [''z'']))
       = Inl RangeError
   \<and> snd (processVideos [(example_video ''a'' ''C1'' 10)\<lparr>published := InvalidDate\<rparr>]
            False ''production'' (example_cache [''z'']))
       \<noteq> Inr [(example_video ''a'' ''C1'' 10)\<lparr>published := InvalidDate\<rparr>]
   \<and> seenVideoIds (fst (processVideos [(example_video ''a'' ''C1'' 10)\<lparr>published := InvalidDate\<rparr>]
            False ''production'' (example_cache [''z'']))) = [''z'']"
  by (simp add: example_simps)

text \<open>
  Claim C4, as amended. In normal operation (neither the initial production run nor
  development mode), for videos none of which is seen and all of which carry a valid
  publication date, \<^verbatim>\<open>processVideos\<close> returns exactly the videos given, in their order,
  and marks them all seen; the same call repeated at once returns the empty list.
\<close>

theorem full_policy_delivers_once:
  assumes "\<not> (f \<and> mode = ''production'')" and "mode \<noteq> ''development''"
    and "\<forall>v\<in>set videos. videoId v \<notin> set (seenVideoIds c)"
    and "\<forall>v\<in>set videos. published v \<noteq> InvalidDate"
  shows "snd (processVideos videos f mode c) = Inr videos
       \<and> set (seenVideoIds (fst (processVideos videos f mode c)))
           = set (seenVideoIds c) \<union> videoId ` set videos
       \<and> snd (processVideos videos f mode (fst (processVideos videos f mode c))) = Inr []"
proof -
  obtain c1 where u: "updateAll (sourceTimestamps videos []) c = (c1, None)"
    and s: "seenVideoIds c1 = seenVideoIds c"
    using processVideos_updates[OF assms(4)] by blast
  have n: "filterNewVideos c1 videos = videos"
    using filterNewVideos_all assms(3) s by simp
  define c2 where "c2 = fold (\<lambda>v. markAsSeen (videoId v)) videos c1"
  have p: "processVideos videos f mode c = (c2, Inr videos)"
    using u n assms(1,2) by (auto simp: processVideos_def Let_def c2_def)
  have s2: "set (seenVideoIds c2) = set (seenVideoIds c) \<union> videoId ` set videos"
    by (simp add: c2_def fold_mark_set s)
  obtain c3 where u3: "updateAll (sourceTimestamps videos []) c2 = (c3, None)"
    and s3: "seenVideoIds c3 = seenVideoIds c2"
    using processVideos_updates[OF assms(4)] by blast
  have n3: "filterNewVideos c3 videos = []"
    using filterNewVideos_none[of videos c3] s3 s2 by simp
  have "snd (processVideos videos f mode c2) = Inr []"
    using u3 n3 assms(1,2) by (auto simp: processVideos_def Let_def)
  with p s2 show ?thesis by simp
qed

text \<open>Claim C4, at a concrete input.\<close>

theorem full_policy_delivers_once_witness:
  "\<not> (False \<and> ''production'' = ''production'') \<and> ''production'' \<noteq> ''development''
   \<and> videoId (example_video ''a'' ''C1'' 10) \<notin> set (seenVideoIds (example_cache [''z'']))
   \<and> videoId (example_video ''b'' ''C1'' 20) \<notin> set (seenVideoIds (example_cache [''z'']))
   \<and> published (example_video ''a'' ''C1'' 10) \<noteq> InvalidDate
   \<and> published (example_video ''b'' ''C1'' 20) \<noteq> InvalidDate
   \<and> snd (processVideos [example_video ''a'' ''C1'' 10, example_video ''b'' ''C1'' 20]
            False ''production'' (example_cache [''z'']))
       = Inr [example_video ''a'' ''C1'' 10, example_video ''b'' ''C1'' 20]
   \<and> snd (processVideos [example_video ''a'' ''C1'' 10, example_video ''b'' ''C1'' 20]
            False ''production''
            (fst (processVideos [example_video ''a'' ''C1'' 10, example_video ''b'' ''C1'' 20]
                    False ''production'' (example_cache [''z''])))) = Inr []"
  using full_policy_delivers_once [of False "''production''"
      "[example_video ''a'' ''C1'' 10, example_video ''b'' ''C1'' 20]" "example_cache [''z'']"]
  by (simp add: example_video_def example_cache_def)

subsection \<open>The rate limiter\<close>

lemma admit_unfold:
  "processQueue_delay now now' w =
     (let ts = filter (\<lambda>t. now - t < 2000) (requestTimestamps w);
          w1 = w\<lparr>requestTimestamps := ts\<rparr>
      in if length ts < 5 then (0, w1)
         else (case ts of [] \<Rightarrow> 0
               | oldest # _ \<Rightarrow> if now' - oldest \<ge> 2000 then 0 else 2000 - (now' - oldest), w1))"
  by (simp add: processQueue_delay_def canMakeRequest_def calculateDelay_def Let_def
      RATE_LIMIT_REQUESTS_def RATE_LIMIT_WINDOW_MS_def split: list.splits)

lemma sorted_filter_hd_Min:
  fixes xs :: "int list"
  assumes "sorted xs" "xs \<noteq> []"
  shows "hd xs = Min (set xs)"
proof (cases xs)
  case Nil
  with assms show ?thesis by simp
next
  case (Cons x rest)
  then have "\<forall>y\<in>set xs. x \<le> y" using assms(1) by auto
  then have "Min (set xs) = x" using Cons by (intro Min_eqI) auto
  then show ?thesis using Cons by simp
qed

text \<open>
  Claim C5. The admit decision of the rate limiter, \<^verbatim>\<open>_canMakeRequest\<close> followed by
  \<^verbatim>\<open>_calculateDelay\<close> at the same clock value \<open>now\<close>: the timestamps kept are exactly
  those less than 2000 ms old; with fewer than 5 of them the wait is zero; otherwise the
  wait is \<open>2000 - (now - oldest)\<close>, where \<open>oldest\<close> is the first timestamp kept, which is
  the least one when the timestamps are in the order in which they were recorded.
\<close>

theorem admit_decision:
  "requestTimestamps (snd (processQueue_delay now now w))
     = filter (\<lambda>t. now - t < 2000) (requestTimestamps w)
   \<and> (length (filter (\<lambda>t. now - t < 2000) (requestTimestamps w)) < 5
        \<longrightarrow> fst (processQueue_delay now now w) = 0)
   \<and> (5 \<le> length (filter (\<lambda>t. now - t < 2000) (requestTimestamps w))
        \<longrightarrow> fst (processQueue_delay now now w)
              = 2000 - (now - hd (filter (\<lambda>t. now - t < 2000) (requestTimestamps w))))
   \<and> (5 \<le> length (filter (\<lambda>t. now - t < 2000) (requestTimestamps w))
        \<and> sorted (requestTimestamps w)
        \<longrightarrow> fst (processQueue_delay now now w)
              = 2000 - (now - Min (set (filter (\<lambda>t. now - t < 2000) (requestTimestamps w)))))"
proof -
  define ts where "ts = filter (\<lambda>t. now - t < 2000) (requestTimestamps w)"
  have a: "requestTimestamps (snd (processQueue_delay now now w)) = ts"
    by (simp add: admit_unfold Let_def ts_def)
  have b: "length ts < 5 \<longrightarrow> fst (processQueue_delay now now w) = 0"
    by (simp add: admit_unfold Let_def ts_def)
  have c: "fst (processQueue_delay now now w) = 2000 - (now - hd ts)" if "5 \<le> length ts"
  proof (cases ts)
    case Nil
    with that show ?thesis by simp
  next
    case (Cons oldest rest)
    then have "oldest \<in> set ts" by simp
    then have "now - oldest < 2000" by (simp add: ts_def)
    with that Cons show ?thesis
      using ts_def by (simp add: admit_unfold Let_def)
  qed
  have d: "fst (processQueue_delay now now w) = 2000 - (now - Min (set ts))"
    if "5 \<le> length ts" "sorted (requestTimestamps w)"
  proof -
    have "sorted ts" using that(2) by (simp add: ts_def sorted_wrt_filter)
    moreover have "ts \<noteq> []" using that(1) by auto
    ultimately have "hd ts = Min (set ts)" by (rule sorted_filter_hd_Min)
    with c[OF that(1)] show ?thesis by simp
  qed
  from a b c d show ?thesis unfolding ts_def by blast
qed

text \<open>Claim C5, at a concrete input.\<close>

theorem admit_decision_witness:
  "5 \<le> length (filter (\<lambda>t. 2500 - t < 2000) (requestTimestamps (example_endpoint [100, 600, 700, 800, 900, 1000])))
   \<and> sorted (requestTimestamps (example_endpoint [100, 600, 700, 800, 900, 1000]))
   \<and> requestTimestamps (snd (processQueue_delay 2500 2500 (example_endpoint [100, 600, 700, 800, 900, 1000])))
       = [600, 700, 800, 900, 1000]
   \<and> fst (processQueue_delay 2500 2500 (example_endpoint [100, 600, 700, 800, 900, 1000])) = 100
   \<and> fst (processQueue_delay 2500 2500 (example_endpoint [100, 600, 700, 800])) = 0"
  using admit_decision [of 2500 "example_endpoint [100, 600, 700, 800, 900, 1000]"]
    admit_decision [of 2500 "example_endpoint [100, 600, 700, 800]"]
  by (simp add: example_endpoint_def)

lemma admit_later_clock:
  assumes "5 \<le> length (filter (\<lambda>t. now - t < 2000) (requestTimestamps w))"
  shows "fst (processQueue_delay now now' w)
           = max 0 (2000 - (now' - hd (filter (\<lambda>t. now - t < 2000) (requestTimestamps w))))"
  using assms
  by (cases "filter (\<lambda>t. now - t < 2000) (requestTimestamps w)")
     (auto simp: admit_unfold Let_def)

subsection \<open>Retries of a send\<close>

lemma sendWebhook_Done:
  "try_clause parseInt k (fetch payload k) = Done r \<Longrightarrow> sendWebhook parseInt fetch payload k = ([], r)"
  by (subst sendWebhook.simps) simp

lemma sendWebhook_Retry:
  "try_clause parseInt k (fetch payload k) = Retry d \<Longrightarrow>
   sendWebhook parseInt fetch payload k
     = (d # fst (sendWebhook parseInt fetch payload (k + 1)),
        snd (sendWebhook parseInt fetch payload (k + 1)))"
  by (subst sendWebhook.simps) (simp add: case_prod_beta)

lemma try_clause_Retry_bound:
  "try_clause parseInt k fr = Retry d \<Longrightarrow> k < 3"
  by (auto simp: try_clause_def catch_clause_def maxRetries_def
      split: fetch_result.splits if_splits)

text \<open>The sleeps are the delays of consecutive activations; the result is that of the last.\<close>

lemma sendWebhook_trace:
  "length (fst (sendWebhook parseInt fetch payload k)) \<le> 3 - k
   \<and> (\<forall>i < length (fst (sendWebhook parseInt fetch payload k)).
         try_clause parseInt (k + i) (fetch payload (k + i))
           = Retry (fst (sendWebhook parseInt fetch payload k) ! i))
   \<and> try_clause parseInt (k + length (fst (sendWebhook parseInt fetch payload k)))
         (fetch payload (k + length (fst (sendWebhook parseInt fetch payload k))))
       = Done (snd (sendWebhook parseInt fetch payload k))"
proof (induction parseInt fetch payload k rule: sendWebhook.induct)
  case (1 parseInt fetch payload k)
  show ?case
  proof (cases "try_clause parseInt k (fetch payload k)")
    case (Done r)
    then show ?thesis by (simp add: sendWebhook_Done)
  next
    case (Retry d)
    have lt: "k < 3" using Retry by (rule try_clause_Retry_bound)
    let ?rest = "sendWebhook parseInt fetch payload (k + 1)"
    have ih: "length (fst ?rest) \<le> 3 - (k + 1)"
      "\<forall>i < length (fst ?rest). try_clause parseInt (k + 1 + i) (fetch payload (k + 1 + i))
           = Retry (fst ?rest ! i)"
      "try_clause parseInt (k + 1 + length (fst ?rest)) (fetch payload (k + 1 + length (fst ?rest)))
         = Done (snd ?rest)"
      using 1[OF Retry] by simp_all
    have eq: "sendWebhook parseInt fetch payload k = (d # fst ?rest, snd ?rest)"
      using Retry by (rule sendWebhook_Retry)
    have a: "length (fst (sendWebhook parseInt fetch payload k)) \<le> 3 - k"
      using ih(1) lt by (simp add: eq)
    have b: "\<forall>i < length (fst (sendWebhook parseInt fetch payload k)).
         try_clause parseInt (k + i) (fetch payload (k + i))
           = Retry (fst (sendWebhook parseInt fetch payload k) ! i)"
    proof (intro allI impI)
      fix i assume i: "i < length (fst (sendWebhook parseInt fetch payload k))"
      show "try_clause parseInt (k + i) (fetch payload (k + i))
           = Retry (fst (sendWebhook parseInt fetch payload k) ! i)"
      proof (cases i)
        case 0
        then show ?thesis using Retry by (simp add: eq)
      next
        case (Suc j)
        then have "j < length (fst ?rest)" using i by (simp add: eq)
        then show ?thesis using ih(2) Suc by (simp add: eq)
      qed
    qed
    have c: "try_clause parseInt (k + length (fst (sendWebhook parseInt fetch payload k)))
         (fetch payload (k + length (fst (sendWebhook parseInt fetch payload k))))
       = Done (snd (sendWebhook parseInt fetch payload k))"
      using ih(3) by (simp add: eq)
    from a b c show ?thesis by blast
  qed
qed

lemma try_clause_Retry_cases:
  assumes "try_clause parseInt k fr = Retry d"
  shows "case fr of
           Throws e \<Rightarrow> error_name e \<noteq> ''AbortError'' \<and> d = Num (1000 * 2 ^ k)
         | Response r \<Rightarrow> \<not> ok r \<and>
             d = (if status r = 429
                  then (case retryAfter r of
                          None \<Rightarrow> Num (1000 * 2 ^ k)
                        | Some h \<Rightarrow> if h = [] then Num (1000 * 2 ^ k)
                                    else num_times (parseInt h) 1000)
                  else Num (1000 * 2 ^ k))"
  using assms
  by (auto simp: try_clause_def catch_clause_def rateLimitDelay_def baseDelay_def ok_def
      split: fetch_result.splits if_splits option.splits)

lemma try_clause_Done_cases:
  assumes "try_clause parseInt k fr = Done res"
  shows "case res of
           Inr r \<Rightarrow> fr = Response r \<and> ok r
         | Inl e \<Rightarrow> (3 \<le> k \<or> error_name e = ''AbortError'')
                    \<and> (fr = Throws e
                        \<or> (\<exists>r. fr = Response r \<and> \<not> ok r \<and> e = HttpError (status r) (errorText r)))"
  using assms
  by (auto simp: try_clause_def catch_clause_def maxRetries_def
      split: fetch_result.splits if_splits sum.splits)

text \<open>
  Claim C6. \<^verbatim>\<open>_sendWebhook(payload)\<close> sleeps at most 3 times, once before each retry.
  Retry \<open>k\<close> (counted from 0) follows a failed attempt \<open>k\<close>: an exception that is not an
  AbortError, or a response that is not ok. The time slept is \<open>1000 * 2 ^ k\<close> ms, except
  after a response 429 with a non-empty Retry-After header, where it is the header's
  number of seconds times 1000. The call returns the ok response of its last attempt,
  or throws the error of its last attempt, and it throws only when 3 retries have been
  made or the error is an AbortError. An attempt that ends in an AbortError is the last
  one, and a send whose four attempts all fail throws.
\<close>

theorem sendWebhook_retries:
  "length (fst (sendWebhook parseInt fetch payload 0)) \<le> 3
   \<and> (\<forall>k < length (fst (sendWebhook parseInt fetch payload 0)).
        (case fetch payload k of
           Throws e \<Rightarrow> error_name e \<noteq> ''AbortError''
                        \<and> fst (sendWebhook parseInt fetch payload 0) ! k = Num (1000 * 2 ^ k)
         | Response r \<Rightarrow> \<not> ok r
             \<and> fst (sendWebhook parseInt fetch payload 0) ! k
                 = (if status r = 429
                    then (case retryAfter r of
                            None \<Rightarrow> Num (1000 * 2 ^ k)
                          | Some h \<Rightarrow> if h = [] then Num (1000 * 2 ^ k)
                                      else num_times (parseInt h) 1000)
                    else Num (1000 * 2 ^ k))))
   \<and> (case snd (sendWebhook parseInt fetch payload 0) of
         Inr r \<Rightarrow> fetch payload (length (fst (sendWebhook parseInt fetch payload 0))) = Response r
                   \<and> ok r
       | Inl e \<Rightarrow>
           (length (fst (sendWebhook parseInt fetch payload 0)) = 3
              \<or> error_name e = ''AbortError'')
           \<and> (fetch payload (length (fst (sendWebhook parseInt fetch payload 0))) = Throws e
               \<or> (\<exists>r. fetch payload (length (fst (sendWebhook parseInt fetch payload 0)))
                          = Response r
                        \<and> \<not> ok r \<and> e = HttpError (status r) (errorText r))))
   \<and> (\<forall>k \<le> length (fst (sendWebhook parseInt fetch payload 0)). \<forall>e.
        fetch payload k = Throws e \<and> error_name e = ''AbortError''
        \<longrightarrow> k = length (fst (sendWebhook parseInt fetch payload 0))
            \<and> snd (sendWebhook parseInt fetch payload 0) = Inl e)
   \<and> ((\<forall>k \<le> 3. case fetch payload k of Throws e \<Rightarrow> True | Response r \<Rightarrow> \<not> ok r)
        \<longrightarrow> (\<exists>e. snd (sendWebhook parseInt fetch payload 0) = Inl e))"
proof -
  let ?sl = "fst (sendWebhook parseInt fetch payload 0)"
  let ?res = "snd (sendWebhook parseInt fetch payload 0)"
  have t: "length ?sl \<le> 3"
    "\<forall>i < length ?sl. try_clause parseInt i (fetch payload i) = Retry (?sl ! i)"
    "try_clause parseInt (length ?sl) (fetch payload (length ?sl)) = Done ?res"
    using sendWebhook_trace[of parseInt fetch payload 0] by simp_all
  have b: "\<forall>k < length ?sl.
        (case fetch payload k of
           Throws e \<Rightarrow> error_name e \<noteq> ''AbortError'' \<and> ?sl ! k = Num (1000 * 2 ^ k)
         | Response r \<Rightarrow> \<not> ok r
             \<and> ?sl ! k
                 = (if status r = 429
                    then (case retryAfter r of
                            None \<Rightarrow> Num (1000 * 2 ^ k)
                          | Some h \<Rightarrow> if h = [] then Num (1000 * 2 ^ k)
                                      else num_times (parseInt h) 1000)
                    else Num (1000 * 2 ^ k)))"
    using t(2) try_clause_Retry_cases by blast
  have c: "case ?res of
         Inr r \<Rightarrow> fetch payload (length ?sl) = Response r \<and> ok r
       | Inl e \<Rightarrow>
           (length ?sl = 3 \<or> error_name e = ''AbortError'')
           \<and> (fetch payload (length ?sl) = Throws e
               \<or> (\<exists>r. fetch payload (length ?sl) = Response r
                        \<and> \<not> ok r \<and> e = HttpError (status r) (errorText r)))"
  proof (cases ?res)
    case (Inl e)
    then show ?thesis
      using try_clause_Done_cases[OF t(3)] t(1) by auto
  next
    case (Inr r)
    then show ?thesis
      using try_clause_Done_cases[OF t(3)] by auto
  qed
  have d: "k = length ?sl \<and> ?res = Inl e"
    if "k \<le> length ?sl" "fetch payload k = Throws e" "error_name e = ''AbortError''" for k e
  proof -
    have "\<not> k < length ?sl"
    proof
      assume "k < length ?sl"
      then have "try_clause parseInt k (fetch payload k) = Retry (?sl ! k)" using t(2) by blast
      from try_clause_Retry_cases[OF this] that(2,3) show False by simp
    qed
    then have k: "k = length ?sl" using that(1) by simp
    have "try_clause parseInt k (fetch payload k) = Done (Inl e)"
      using that(2,3) by (simp add: try_clause_def catch_clause_def)
    then show ?thesis using t(3) k by simp
  qed
  have e: "\<exists>e. ?res = Inl e"
    if "\<forall>k \<le> 3. case fetch payload k of Throws e \<Rightarrow> True | Response r \<Rightarrow> \<not> ok r"
  proof (cases ?res)
    case (Inl e)
    then show ?thesis by blast
  next
    case (Inr r)
    then have "fetch payload (length ?sl) = Response r \<and> ok r"
      using try_clause_Done_cases[OF t(3)] by simp
    with that t(1) show ?thesis by (auto split: fetch_result.splits)
  qed
  from t(1) b c d e show ?thesis by blast
qed

lemma example_send:
  "sendWebhook example_parseInt example_fetch () 0
     = ([Num 1000, Num 2000, Num 4000], Inl (HttpError 503 ''Unknown error''))"
  by (simp add: sendWebhook.simps example_fetch_def example_parseInt_def try_clause_def
      catch_clause_def rateLimitDelay_def maxRetries_def baseDelay_def ok_def errorText_def)

text \<open>Claim C6, at a concrete input.\<close>

theorem sendWebhook_retries_witness:
  "fst (sendWebhook example_parseInt example_fetch () 0) = [Num 1000, Num 2000, Num 4000]
   \<and> snd (sendWebhook example_parseInt example_fetch () 0) = Inl (HttpError 503 ''Unknown error'')
   \<and> length (fst (sendWebhook example_parseInt example_fetch () 0)) \<le> 3"
  using sendWebhook_retries [of example_parseInt example_fetch "()"]
  by (simp add: example_send)

subsection \<open>Delivery to all webhooks\<close>

lemma multiPost_length:
  "length (multiPostVideoNotification webhooks v) = length webhooks"
  by (simp add: multiPostVideoNotification_def)

lemma multiPost_nth:
  assumes "i < length webhooks"
  shows "multiPostVideoNotification webhooks v ! i
           = (case (webhooks ! i) v of
                Inr _ \<Rightarrow> \<lparr>webhookIndex = i, success = True, error = None\<rparr>
              | Inl e \<Rightarrow> \<lparr>webhookIndex = i, success = False, error = Some (message e)\<rparr>)"
  using assms
  by (simp add: multiPostVideoNotification_def nth_enumerate_eq postToWebhook_def
      settledOutcome_def split: sum.splits)

text \<open>
  Claim C7. \<^verbatim>\<open>MultiDiscordWebhook.postVideoNotification(video)\<close> returns one outcome per
  webhook, in the order of the webhooks and whatever number of them fail: outcome \<open>i\<close>
  carries the index \<open>i\<close>, and it is a success when webhook \<open>i\<close> resolved, or a failure
  with the error message when webhook \<open>i\<close> rejected. The function has no path that throws.
\<close>

theorem dispatcher_aggregates:
  "length (multiPostVideoNotification webhooks v) = length webhooks
   \<and> (\<forall>i < length webhooks.
        webhookIndex (multiPostVideoNotification webhooks v ! i) = i
        \<and> (case (webhooks ! i) v of
              Inr _ \<Rightarrow> success (multiPostVideoNotification webhooks v ! i)
                        \<and> error (multiPostVideoNotification webhooks v ! i) = None
            | Inl e \<Rightarrow> \<not> success (multiPostVideoNotification webhooks v ! i)
                        \<and> error (multiPostVideoNotification webhooks v ! i) = Some (message e)))"
  by (auto simp: multiPost_length multiPost_nth split: sum.splits)

text \<open>Claim C7, at a concrete input.\<close>

theorem dispatcher_aggregates_witness:
  "multiPostVideoNotification [failing_webhook, example_webhook, failing_webhook]
      (example_video ''a'' ''C1'' 10)
     = [\<lparr>webhookIndex = 0, success = False, error = Some ''HTTP 500: down''\<rparr>,
        \<lparr>webhookIndex = 1, success = True, error = None\<rparr>,
        \<lparr>webhookIndex = 2, success = False, error = Some ''HTTP 500: down''\<rparr>]
   \<and> length (multiPostVideoNotification [failing_webhook, example_webhook, failing_webhook]
        (example_video ''a'' ''C1'' 10)) = length [failing_webhook, example_webhook, failing_webhook]"
  using dispatcher_aggregates [of "[failing_webhook, example_webhook, failing_webhook]"
      "example_video ''a'' ''C1'' 10"]
  by (simp add: multiPostVideoNotification_def postToWebhook_def settledOutcome_def
      failing_webhook_rejects example_webhook_resolves enumerate_eq_zip upt_rec)

subsection \<open>Saving and loading\<close>

text \<open>
  A state file whose \<^verbatim>\<open>latestVideoTimestamps\<close> is \<^verbatim>\<open>true\<close> or a number has no entries,
  and loading it empties the map.
\<close>

lemma initialize_truthy_without_entries:
  "latestVideoTimestamps
     (initialize
        [''videos.json'' \<mapsto> Json \<lparr>json_seenVideoIds = None,
                                      json_latestVideoTimestamps = Some Map.empty,
                                      json_lastUpdated = ISO 0, json_version = ''1.0.0''\<rparr>]
        ((example_cache [''x''])\<lparr>latestVideoTimestamps := [''channel:C1'' \<mapsto> ISO 5]\<rparr>))
     = Map.empty"
  by (simp add: initialize_def example_cache_def memoryOnly_def)

text \<open>
  Claim C8 as stated fails: \<^verbatim>\<open>save()\<close> without force, 1000 ms after the last save, writes
  nothing, and a cache loaded afterwards has seen nothing.
\<close>

theorem save_load_counterexample:
  "\<not> memoryOnly (example_cache [''x'', ''y''])
   \<and> seenVideoIds (initialize (snd (save 1000 True False (example_cache [''x'', ''y'']) Map.empty))
        (VideoCache (Some ''videos.json'') 2000)) = []
   \<and> set (seenVideoIds (initialize (snd (save 1000 True False (example_cache [''x'', ''y'']) Map.empty))
        (VideoCache (Some ''videos.json'') 2000))) \<noteq> set (seenVideoIds (example_cache [''x'', ''y'']))"
  by (simp add: example_cache_def memoryOnly_def save_def initialize_def VideoCache_def)

text \<open>
  Claim C8, as amended. A \<^verbatim>\<open>save\<close> that writes the state file (a cache file is
  configured, the save is forced or at least 30000 ms have passed since the last save,
  and the write succeeds), followed by \<^verbatim>\<open>initialize\<close> of a cache on the same file,
  reproduces the cache: the identities seen are the same set and
  \<open>latestVideoTimestamps\<close> is the same map.
\<close>

theorem save_load_roundtrip:
  assumes "\<not> memoryOnly c" and "force \<or> 30000 \<le> now - lastSaveTime c" and "writable"
    and "cacheFile c0 = cacheFile c"
  shows "set (seenVideoIds (initialize (snd (save now writable force c fs)) c0))
           = set (seenVideoIds c)
       \<and> latestVideoTimestamps (initialize (snd (save now writable force c fs)) c0)
           = latestVideoTimestamps c"
proof -
  have m: "\<not> memoryOnly c0" using assms(1,4) by (simp add: memoryOnly_def)
  have "initialize (snd (save now writable force c fs)) c0
          = c0\<lparr>seenVideoIds := new_Set (seenVideoIds c),
                latestVideoTimestamps := latestVideoTimestamps c\<rparr>"
    using m assms(4) by (simp add: save_writes[OF assms(1,2,3)] initialize_def cacheData_def)
  then show ?thesis by (simp add: new_Set_set)
qed

text \<open>Claim C8, at a concrete input.\<close>

theorem save_load_roundtrip_witness:
  "\<not> memoryOnly (example_cache [''x'', ''y''])
   \<and> seenVideoIds (initialize (snd (save 5 True True
         ((example_cache [''x'', ''y''])
            \<lparr>latestVideoTimestamps := [''channel:C1'' \<mapsto> ISO 1735689600000]\<rparr>) Map.empty))
         (VideoCache (Some ''videos.json'') 7)) = [''x'', ''y'']
   \<and> latestVideoTimestamps (initialize (snd (save 5 True True
         ((example_cache [''x'', ''y''])
            \<lparr>latestVideoTimestamps := [''channel:C1'' \<mapsto> ISO 1735689600000]\<rparr>) Map.empty))
         (VideoCache (Some ''videos.json'') 7)) = [''channel:C1'' \<mapsto> ISO 1735689600000]"
  using save_load_roundtrip [of "(example_cache [''x'', ''y''])
            \<lparr>latestVideoTimestamps := [''channel:C1'' \<mapsto> ISO 1735689600000]\<rparr>"
      True 5 True "VideoCache (Some ''videos.json'') 7" Map.empty]
  by (simp add: example_cache_def memoryOnly_def save_def initialize_def cacheData_def
      VideoCache_def new_Set_def Set_add_def)

subsection \<open>The latest timestamp of a source\<close>
















subsection \<open>Cleanup\<close>

text \<open>
  Claim C10. \<^verbatim>\<open>cleanup\<close> never changes \<open>latestVideoTimestamps\<close> (nor the file name and
  the time of the last save); when at most \<open>maxEntries\<close> identities are seen it leaves the
  whole cache as it is; and in every case the identities seen afterwards are among those
  seen before.
\<close>

theorem cleanup_frame:
  "latestVideoTimestamps (cleanup maxEntries c) = latestVideoTimestamps c
   \<and> (int (length (seenVideoIds c)) \<le> maxEntries \<longrightarrow> cleanup maxEntries c = c)
   \<and> set (seenVideoIds (cleanup maxEntries c)) \<subseteq> set (seenVideoIds c)
   \<and> cacheFile (cleanup maxEntries c) = cacheFile c
   \<and> lastSaveTime (cleanup maxEntries c) = lastSaveTime c"
proof -
  have "set (seenVideoIds (cleanup maxEntries c)) \<subseteq> set (seenVideoIds c)"
    using slice_subset[of "- maxEntries" "sort (seenVideoIds c)"]
    by (auto simp: cleanup_def Let_def new_Set_set)
  then show ?thesis by (simp add: cleanup_def Let_def)
qed

lemma sort_example: "sort [''a'', ''c'', ''b'', ''d''] = [''a'', ''b'', ''c'', ''d'']"
  by code_simp

text \<open>Claim C10, at a concrete input.\<close>

theorem cleanup_frame_witness:
  "int (length (seenVideoIds (example_cache [''a'', ''c'', ''b'']))) \<le> 3
   \<and> cleanup 3 (example_cache [''a'', ''c'', ''b'']) = example_cache [''a'', ''c'', ''b'']
   \<and> seenVideoIds (cleanup 3 (example_cache [''a'', ''c'', ''b'', ''d''])) = [''b'', ''c'', ''d'']"
  using cleanup_frame [of 3 "example_cache [''a'', ''c'', ''b'']"]
  by (simp add: example_cache_def cleanup_def slice_def new_Set_def Set_add_def sort_example)

end
